theory Spec2Isabelle
  imports Main
begin

section \<open>JavaScript strings\<close>

text \<open>
  A JavaScript string is a sequence of UTF-16 code units. A code unit is modelled as a
  natural number (below 65536 in every string the program can see; no function below
  depends on the bound), a string as the list of its code units, so that \<open>length\<close>
  is the \<open>.length\<close> of the source. \<open>str\<close> turns an ASCII literal into such a string.
\<close>

type_synonym jsstring = "nat list"

abbreviation str :: "string \<Rightarrow> jsstring" where
  "str s \<equiv> map of_char s"

text \<open>\<open>s.startsWith(p)\<close>, \<open>s.endsWith(p)\<close>, \<open>s.indexOf(p)\<close> (\<open>None\<close> for \<open>-1\<close>), \<open>s.includes(p)\<close>.\<close>

definition startsWith :: "jsstring \<Rightarrow> jsstring \<Rightarrow> bool" where
  "startsWith s p = (take (length p) s = p)"

definition endsWith :: "jsstring \<Rightarrow> jsstring \<Rightarrow> bool" where
  "endsWith s p = (drop (length s - length p) s = p)"

fun indexOf :: "jsstring \<Rightarrow> jsstring \<Rightarrow> nat option" where
  "indexOf [] p = (if p = [] then Some 0 else None)"
| "indexOf (c # s) p =
     (if startsWith (c # s) p then Some 0 else map_option Suc (indexOf s p))"

definition includesStr :: "jsstring \<Rightarrow> jsstring \<Rightarrow> bool" where
  "includesStr s p = (indexOf s p \<noteq> None)"

text \<open>
  \<open>s.split(sep)\<close> for a separator of one code unit: the empty string splits into one
  empty token, and every occurrence of the separator ends a token. \<open>ts.join(sep)\<close>
  puts the separator string between the tokens; the empty array joins to the empty string.
\<close>

fun split :: "jsstring \<Rightarrow> nat \<Rightarrow> jsstring list" where
  "split [] sep = [[]]"
| "split (c # s) sep =
     (if c = sep then [] # split s sep
      else (case split s sep of
              [] \<Rightarrow> [[c]]
            | t # ts \<Rightarrow> (c # t) # ts))"

fun join :: "jsstring list \<Rightarrow> jsstring \<Rightarrow> jsstring" where
  "join [] sep = []"
| "join [t] sep = t"
| "join (t # u # ts) sep = t @ sep @ join (u # ts) sep"

text \<open>\<open>xs.map((x, index) => f x index)\<close>: the callback also receives the position.\<close>

fun map_index :: "('a \<Rightarrow> nat \<Rightarrow> 'b) \<Rightarrow> nat \<Rightarrow> 'a list \<Rightarrow> 'b list" where
  "map_index f i [] = []"
| "map_index f i (x # xs) = f x i # map_index f (Suc i) xs"

section \<open>Value explanations: the result type (valueAnalyzer.ts)\<close>

text \<open>
  The interface \<open>ValueAnalysis\<close>; an optional property is an \<open>option\<close>. Its field
  \<open>type\<close> has the name of a field of \<open>ComponentIdLevel\<close>, which is declared after it:
  an unqualified \<open>type\<close> is the field of the component level.
\<close>

record ValueAnalysis =
  type :: jsstring
  explanation :: jsstring
  details :: "jsstring list option"
  warning :: "jsstring option"

section \<open>Component identifiers (componentId.ts)\<close>

datatype LevelType = Component | Index | Unknown

record ComponentIdLevel =
  id :: jsstring
  type :: LevelType
  depth :: nat

text \<open>The regular expression \<open>/^\\d+$/\<close>: one or more code units, each of \<open>0\<close> to \<open>9\<close>.\<close>

definition isDigit :: "nat \<Rightarrow> bool" where
  "isDigit c = (48 \<le> c \<and> c \<le> 57)"

definition matchesDigits :: "jsstring \<Rightarrow> bool" where
  "matchesDigits part = (part \<noteq> [] \<and> list_all isDigit part)"

definition mkLevel :: "jsstring \<Rightarrow> nat \<Rightarrow> ComponentIdLevel" where
  "mkLevel part index =
     (let isNumeric = matchesDigits part
      in \<lparr> id = part,
           type = (if isNumeric then Index else if part \<noteq> [] then Component else Unknown),
           depth = index \<rparr>)"

definition parseComponentId :: "jsstring \<Rightarrow> ComponentIdLevel list" where
  "parseComponentId s =
     (if s = [] then []
      else let parts = split s (of_char CHR '':'') in map_index mkLevel 0 parts)"

definition formatComponentIdTree :: "ComponentIdLevel list \<Rightarrow> jsstring" where
  "formatComponentIdTree levels =
     (if levels = [] then []
      else join (map (\<lambda>level. ComponentIdLevel.id level) levels) (str '':''))"

section \<open>Percent-decoding (decoder.ts)\<close>

text \<open>
  The built-in \<open>decodeURIComponent\<close>, after the \<open>Decode\<close> operation of ECMAScript:
  a code unit other than \<open>%\<close> is copied; \<open>%\<close> must be followed by two hexadecimal
  digits giving an octet; an octet below \<open>0x80\<close> is the decoded code unit; an octet
  with two, three or four leading one bits opens a UTF-8 sequence whose further octets
  are escapes as well, and the sequence must be the UTF-8 encoding of a code point,
  which is appended in UTF-16. \<open>None\<close> stands for the \<open>URIError\<close> the built-in throws
  on everything else.
\<close>

definition hexVal :: "nat \<Rightarrow> nat option" where
  "hexVal c =
     (if 48 \<le> c \<and> c \<le> 57 then Some (c - 48)
      else if 65 \<le> c \<and> c \<le> 70 then Some (c - 55)
      else if 97 \<le> c \<and> c \<le> 102 then Some (c - 87)
      else None)"

fun parseHexOctet :: "jsstring \<Rightarrow> nat option" where
  "parseHexOctet (h1 # h2 # s) =
     (case hexVal h1 of
        None \<Rightarrow> None
      | Some a \<Rightarrow> (case hexVal h2 of None \<Rightarrow> None | Some b \<Rightarrow> Some (16 * a + b)))"
| "parseHexOctet s = None"

definition leadingOnes :: "nat \<Rightarrow> nat" where
  "leadingOnes B =
     (if B < 128 then 0 else if B < 192 then 1 else if B < 224 then 2
      else if B < 240 then 3 else if B < 248 then 4 else 5)"

fun readContinuation :: "nat \<Rightarrow> jsstring \<Rightarrow> nat list option" where
  "readContinuation 0 s = Some []"
| "readContinuation (Suc j) [] = None"
| "readContinuation (Suc j) (c # s) =
     (if c \<noteq> 37 then None
      else (case parseHexOctet s of
              None \<Rightarrow> None
            | Some b \<Rightarrow> map_option ((#) b) (readContinuation j (drop 2 s))))"

definition utf8CodePoint :: "nat \<Rightarrow> nat list \<Rightarrow> nat option" where
  "utf8CodePoint B bs =
     (if \<not> list_all (\<lambda>b. 128 \<le> b \<and> b < 192) bs then None
      else let n = Suc (length bs);
               V = foldl (\<lambda>acc b. acc * 64 + b mod 64) (B mod 2 ^ (7 - n)) bs;
               lowest = (if n = 2 then 128 else if n = 3 then 2048 else 65536)
           in if V < lowest \<or> 1114111 < V \<or> (55296 \<le> V \<and> V \<le> 57343) then None
              else Some V)"

definition utf16Encode :: "nat \<Rightarrow> jsstring" where
  "utf16Encode V =
     (if V < 65536 then [V]
      else [55296 + (V - 65536) div 1024, 56320 + (V - 65536) mod 1024])"

fun decodeURIComponent :: "jsstring \<Rightarrow> jsstring option" where
  "decodeURIComponent [] = Some []"
| "decodeURIComponent (c # s) =
     (if c \<noteq> 37 then map_option ((#) c) (decodeURIComponent s)
      else (case parseHexOctet s of
              None \<Rightarrow> None
            | Some B \<Rightarrow>
                if leadingOnes B = 0 then map_option ((#) B) (decodeURIComponent (drop 2 s))
                else if leadingOnes B = 1 \<or> 4 < leadingOnes B then None
                else (case readContinuation (leadingOnes B - 1) (drop 2 s) of
                        None \<Rightarrow> None
                      | Some bs \<Rightarrow>
                          (case utf8CodePoint B bs of
                             None \<Rightarrow> None
                           | Some V \<Rightarrow>
                               map_option ((@) (utf16Encode V))
                                 (decodeURIComponent (drop (2 + 3 * (leadingOnes B - 1)) s))))))"

text \<open>
  \<open>decodeParameter\<close>: falsy input gives the empty string; otherwise one call of the
  built-in, whose exception is caught and answered with the input itself.
\<close>

definition decodeParameter :: "jsstring \<Rightarrow> jsstring" where
  "decodeParameter encoded =
     (if encoded = [] then []
      else (case decodeURIComponent encoded of
              Some decoded \<Rightarrow> decoded
            | None \<Rightarrow> encoded))"

section \<open>Body parser (parser.ts)\<close>

datatype ParameterCategory = StandardJsf | ComponentId | ViewState | FormSubmit | Custom

record ParsedParameter =
  name :: jsstring
  decodedName :: jsstring
  "value" :: jsstring
  decodedValue :: jsstring
  category :: "ParameterCategory option"

record ParseResult =
  parameters :: "ParsedParameter list"
  rawBody :: jsstring

definition extractBodyFromRaw :: "jsstring \<Rightarrow> jsstring" where
  "extractBodyFromRaw raw =
     (if raw = [] then []
      else let crlfIndex = indexOf raw [13, 10, 13, 10];
               lfIndex = indexOf raw [10, 10];
               bodyStartIndex =
                 (case crlfIndex of
                    Some i \<Rightarrow> Some (i + 4)
                  | None \<Rightarrow> (case lfIndex of Some j \<Rightarrow> Some (j + 2) | None \<Rightarrow> None))
           in (case bodyStartIndex of None \<Rightarrow> [] | Some b \<Rightarrow> drop b raw))"

text \<open>
  One turn of the loop of \<open>parseUrlEncodedBody\<close> on a non-empty pair: the name is what
  stands before the first \<open>=\<close>, the value what follows it.
\<close>

definition parsePair :: "jsstring \<Rightarrow> ParsedParameter" where
  "parsePair pair =
     (let eqIndex = indexOf pair (str ''='');
          nm = (case eqIndex of None \<Rightarrow> pair | Some i \<Rightarrow> take i pair);
          val = (case eqIndex of None \<Rightarrow> [] | Some i \<Rightarrow> drop (i + 1) pair)
      in \<lparr> name = nm, decodedName = decodeParameter nm,
           value = val, decodedValue = decodeParameter val, category = None \<rparr>)"

fun parsePairs :: "ParsedParameter list \<Rightarrow> jsstring list \<Rightarrow> ParsedParameter list" where
  "parsePairs params [] = params"
| "parsePairs params (pair # pairs) =
     (if pair = [] then parsePairs params pairs
      else parsePairs (params @ [parsePair pair]) pairs)"

definition parseUrlEncodedBody :: "jsstring \<Rightarrow> ParsedParameter list" where
  "parseUrlEncodedBody body =
     (if body = [] then []
      else parsePairs [] (split body (of_char CHR ''&'')))"

definition parseJsfBody :: "jsstring \<Rightarrow> ParseResult" where
  "parseJsfBody body =
     (if body = [] then \<lparr> parameters = [], rawBody = [] \<rparr>
      else let actualBody =
                 (if includesStr body [13, 10, 13, 10] \<or> includesStr body [10, 10]
                  then extractBodyFromRaw body else body)
           in \<lparr> parameters = parseUrlEncodedBody actualBody, rawBody = actualBody \<rparr>)"

text \<open>
  The Form Decoder in the words of its contract, to compare \<open>parseUrlEncodedBody\<close> with:
  the non-empty segments between \<open>&\<close>, each cut at its first \<open>=\<close>, each field
  percent-decoded once, a field that does not decode left as it is.
\<close>

definition specName :: "jsstring \<Rightarrow> jsstring" where
  "specName segment = takeWhile (\<lambda>c. c \<noteq> of_char CHR ''='') segment"

definition specValue :: "jsstring \<Rightarrow> jsstring" where
  "specValue segment = drop 1 (dropWhile (\<lambda>c. c \<noteq> of_char CHR ''='') segment)"

definition specDecodeOnce :: "jsstring \<Rightarrow> jsstring" where
  "specDecodeOnce field =
     (case decodeURIComponent field of Some decoded \<Rightarrow> decoded | None \<Rightarrow> field)"

definition specParameter :: "jsstring \<Rightarrow> ParsedParameter" where
  "specParameter segment =
     \<lparr> name = specName segment, decodedName = specDecodeOnce (specName segment),
       value = specValue segment, decodedValue = specDecodeOnce (specValue segment),
       category = None \<rparr>"

definition specFormDecoder :: "jsstring \<Rightarrow> ParsedParameter list" where
  "specFormDecoder body =
     map specParameter (filter (\<lambda>segment. segment \<noteq> []) (split body (of_char CHR ''&'')))"

section \<open>Annotations (annotations.ts)\<close>

definition JSF_ANNOTATIONS :: "(jsstring \<times> jsstring) list" where
  "JSF_ANNOTATIONS =
     [(str ''javax.faces.partial.ajax'', str ''Indicates AJAX partial request - When 'true', only specified components are processed and rendered''),
      (str ''javax.faces.source'', str ''Component that triggered the request - Client ID of the component that initiated the AJAX request''),
      (str ''javax.faces.partial.execute'', str ''Components to process on server - Space-separated list of component IDs to execute during Apply Request Values, Process Validations, and Update Model phases''),
      (str ''javax.faces.partial.render'', str ''Components to re-render on client - Space-separated list of component IDs whose markup should be returned in the response''),
      (str ''javax.faces.behavior.event'', str ''Client behavior event type - The name of the behavior event that triggered this request (e.g., 'action', 'valueChange', 'click')''),
      (str ''javax.faces.partial.event'', str ''Partial request event type - The DOM event that triggered the partial request (e.g., 'click', 'change', 'blur')''),
      (str ''javax.faces.ViewState'', str ''Serialized server-side state - Contains the component tree state, can be stateful (server-side) or stateless (client-side encrypted)''),
      (str ''javax.faces.FormSignature'', str ''Form signature for CSRF protection - Cryptographic signature to prevent Cross-Site Request Forgery attacks''),
      (str ''javax.faces.ClientWindow'', str ''Client window identifier - Tracks browser tabs/windows for multi-window support in JSF 2.2+''),
      (str ''javax.faces.encodedURL'', str ''Encoded URL for navigation - URL with view parameters and conversation state encoded''),
      (str ''javax.faces.resource'', str ''Resource identifier - Identifies a JSF resource (CSS, JS, images) to be served by the ResourceHandler''),
      (str ''ln'', str ''Resource library name - Groups related resources together (e.g., 'primefaces', 'css', 'js')''),
      (str ''v'', str ''Resource version - Version number for cache busting and resource versioning''),
      (str ''javax.faces.validator.REQUIRED'', str ''Required field validation - Indicates a required field validation message''),
      (str ''javax.faces.converter.STRING'', str ''String converter - Converts between String and Object representations''),
      (str ''javax.faces.converter.DateTimeConverter.PATTERN'', str ''Date/time pattern - Format pattern for date/time conversion''),
      (str ''jffi'', str ''Faces Flow instance identifier - Tracks the current Faces Flow instance (JSF 2.2+)''),
      (str ''jffi.token'', str ''Flow token - Security token for Faces Flow transitions''),
      (str ''cid'', str ''Conversation ID - CDI conversation identifier for stateful conversations''),
      (str ''primefaces.resetvalues'', str ''PrimeFaces reset values - Resets input components to their initial values''),
      (str ''primefaces.ignoreautoupdate'', str ''PrimeFaces ignore auto-update - Prevents automatic update of components'')]"

definition SUBMIT_ANNOTATION :: jsstring where
  "SUBMIT_ANNOTATION = str ''Form submission marker - Indicates which form was submitted''"

text \<open>
  \<open>getAnnotation\<close> reads the property of the table object; \<open>None\<close> is \<open>undefined\<close>.
  The categorizer asks for names that start with \<open>javax.faces.\<close> only, none of which is
  a property that the object inherits.
\<close>

definition getAnnotation :: "jsstring \<Rightarrow> jsstring option" where
  "getAnnotation paramName = map_of JSF_ANNOTATIONS paramName"

definition IMPLEMENTATION_INDICATORS :: "(jsstring \<times> jsstring) list" where
  "IMPLEMENTATION_INDICATORS =
     [(str ''com.sun.faces'', str ''Mojarra (Oracle/Sun JSF Reference Implementation)''),
      (str ''org.apache.myfaces'', str ''Apache MyFaces''),
      (str ''org.primefaces'', str ''PrimeFaces Component Library''),
      (str ''org.richfaces'', str ''RichFaces Component Library''),
      (str ''org.icefaces'', str ''ICEfaces Component Library'')]"

text \<open>
  \<open>detectImplementation\<close>: the value of the first table entry, in the order of
  \<open>Object.entries\<close>, whose key occurs in the first parameter name that holds any key;
  \<open>None\<close> for \<open>undefined\<close>.
\<close>

fun firstIncluded :: "jsstring \<Rightarrow> (jsstring \<times> jsstring) list \<Rightarrow> jsstring option" where
  "firstIncluded paramName [] = None"
| "firstIncluded paramName ((key, val) # entries) =
     (if includesStr paramName key then Some val else firstIncluded paramName entries)"

fun detectImplementation :: "jsstring list \<Rightarrow> jsstring option" where
  "detectImplementation [] = None"
| "detectImplementation (paramName # paramNames) =
     (case firstIncluded paramName IMPLEMENTATION_INDICATORS of
        Some val \<Rightarrow> Some val
      | None \<Rightarrow> detectImplementation paramNames)"

section \<open>Detector (detector.ts)\<close>

datatype Confidence = High | Medium | Low

record JsfDetectionResult =
  isJsf :: bool
  confidence :: Confidence
  indicators :: "jsstring list"

text \<open>A value handed to a function whose parameter TypeScript types as a string: the
  guard \<open>!raw || typeof raw !== "string"\<close> of the source sees either a string or
  something else (\<open>null\<close>, \<open>undefined\<close>, a number, an object).\<close>

datatype jsvalue = JsString jsstring | JsNonString

definition STANDARD_JSF_PARAMS :: "jsstring list" where
  "STANDARD_JSF_PARAMS =
     [str ''javax.faces.partial.ajax'',
      str ''javax.faces.source'',
      str ''javax.faces.partial.execute'',
      str ''javax.faces.partial.render'',
      str ''javax.faces.behavior.event'',
      str ''javax.faces.partial.event'',
      str ''javax.faces.ViewState'',
      str ''javax.faces.ClientWindow'',
      str ''javax.faces.FormSignature'']"

definition VERSION_INDICATORS :: "(jsstring \<times> jsstring) list" where
  "VERSION_INDICATORS =
     [(str ''javax.faces.ClientWindow'', str ''JSF 2.2+ (Multi-window support)''),
      (str ''javax.faces.FormSignature'', str ''JSF 2.2+ (CSRF protection)''),
      (str ''jffi'', str ''JSF 2.2+ (Faces Flow)''),
      (str ''javax.faces.partial.ajax'', str ''JSF 2.0+ (AJAX support)''),
      (str ''javax.faces.ViewState'', str ''JSF 1.0+ (Core framework)'')]"

text \<open>The variables that the loop over the parameters of \<open>detectJsf\<close> updates.\<close>

record DetectorState =
  found :: "jsstring list"
  hasStandardJsf :: bool
  hasAjax :: bool
  hasViewState :: bool
  versionFeatures :: "jsstring list"

text \<open>The inner loop over the entries of \<open>VERSION_INDICATORS\<close>.\<close>

fun scanVersions :: "jsstring \<Rightarrow> jsstring list \<Rightarrow> (jsstring \<times> jsstring) list \<Rightarrow> jsstring list" where
  "scanVersions dn features [] = features"
| "scanVersions dn features ((key, version) # entries) =
     (if dn = key \<and> version \<notin> set features
      then scanVersions dn (features @ [version]) entries
      else scanVersions dn features entries)"

text \<open>One turn of the outer loop: \<open>found\<close> is the array \<open>indicators\<close>, \<open>dn\<close> the
  constant \<open>decodedName\<close>.\<close>

definition scanParameter :: "DetectorState \<Rightarrow> ParsedParameter \<Rightarrow> DetectorState" where
  "scanParameter st param =
     (let dn = decodedName param;
          st1 = (if startsWith dn (str ''javax.faces.'')
                 then st \<lparr> hasStandardJsf := True,
                          found := found st @ [str ''Standard JSF parameter: '' @ dn],
                          hasAjax := (if dn = str ''javax.faces.partial.ajax'' then True else hasAjax st),
                          hasViewState := (if dn = str ''javax.faces.ViewState'' then True else hasViewState st) \<rparr>
                 else st);
          st2 = (if endsWith dn (str ''_SUBMIT'')
                 then st1 \<lparr> found := found st1 @ [str ''Form submission marker: '' @ dn] \<rparr>
                 else st1)
      in st2 \<lparr> versionFeatures := scanVersions dn (versionFeatures st2) VERSION_INDICATORS \<rparr>)"

definition scanParameters :: "ParsedParameter list \<Rightarrow> DetectorState" where
  "scanParameters ps =
     foldl scanParameter
       \<lparr> found = [], hasStandardJsf = False, hasAjax = False, hasViewState = False,
         versionFeatures = [] \<rparr> ps"

definition notJsf :: JsfDetectionResult where
  "notJsf = \<lparr> isJsf = False, confidence = Low, indicators = [] \<rparr>"

text \<open>
  \<open>detectJsf\<close>. Inside the \<open>try\<close> block nothing can throw: the one exception of the
  parser, the \<open>URIError\<close> of \<open>decodeURIComponent\<close>, is caught in \<open>decodeParameter\<close>, and
  the string and array operations that follow are total. The \<open>catch\<close> branch, which
  returns \<open>notJsf\<close>, is therefore never taken.
\<close>

fun detectJsf :: "jsvalue \<Rightarrow> JsfDetectionResult" where
  "detectJsf JsNonString = notJsf"
| "detectJsf (JsString raw) =
     (if raw = [] then notJsf
      else let ps = parameters (parseJsfBody raw)
           in if length ps = 0 then notJsf
              else let paramNames = map decodedName ps;
                       st = scanParameters ps;
                       ind1 = (case detectImplementation paramNames of
                                 None \<Rightarrow> found st
                               | Some impl \<Rightarrow>
                                   if impl \<noteq> [] then found st @ [str ''Implementation: '' @ impl]
                                   else found st);
                       ind2 = (if length (versionFeatures st) > 0
                               then ind1 @ [str ''Version features: '' @ join (versionFeatures st) (str '', '')]
                               else ind1);
                       ind3 = (if hasAjax st then ind2 @ [str ''Request type: AJAX Partial Request'']
                               else if hasViewState st then ind2 @ [str ''Request type: Full Page Postback'']
                               else ind2);
                       detected = (length ind3 > 0)
                   in \<lparr> isJsf = detected,
                        confidence = (if detected then (if hasStandardJsf st then High else Medium) else Low),
                        indicators = ind3 \<rparr>)"

definition isJsfRequest :: "jsvalue \<Rightarrow> bool" where
  "isJsfRequest raw = isJsf (detectJsf raw)"

text \<open>
  The detection rule in the words of the specification, to compare \<open>detectJsf\<close> with:
  a canonical name is a member of the closed list \<open>STANDARD_JSF_PARAMS\<close>, and the
  decoded parameter set of an input is what the Form Decoder's entry point returns.
\<close>

definition decodedNames :: "jsstring \<Rightarrow> jsstring list" where
  "decodedNames raw = map decodedName (parameters (parseJsfBody raw))"

definition specCanonicalPresent :: "jsstring \<Rightarrow> bool" where
  "specCanonicalPresent raw = list_ex (\<lambda>n. n \<in> set STANDARD_JSF_PARAMS) (decodedNames raw)"

definition specSubmitPresent :: "jsstring \<Rightarrow> bool" where
  "specSubmitPresent raw = list_ex (\<lambda>n. endsWith n (str ''_SUBMIT'')) (decodedNames raw)"

definition specDetection :: "jsstring \<Rightarrow> JsfDetectionResult \<Rightarrow> bool" where
  "specDetection raw r =
     ((isJsf r \<longleftrightarrow> specCanonicalPresent raw \<or> specSubmitPresent raw) \<and>
      (confidence r = High \<longleftrightarrow> specCanonicalPresent raw) \<and>
      (confidence r = Medium \<longleftrightarrow> \<not> specCanonicalPresent raw \<and> specSubmitPresent raw) \<and>
      (confidence r = Low \<longleftrightarrow> \<not> specCanonicalPresent raw \<and> \<not> specSubmitPresent raw))"

text \<open>What the code looks at instead of the canonical list.\<close>

definition prefixPresent :: "jsstring \<Rightarrow> bool" where
  "prefixPresent raw = list_ex (\<lambda>n. startsWith n (str ''javax.faces.'')) (decodedNames raw)"

definition versionKeyPresent :: "jsstring \<Rightarrow> bool" where
  "versionKeyPresent raw = list_ex (\<lambda>n. n \<in> set (map fst VERSION_INDICATORS)) (decodedNames raw)"

definition implementationPresent :: "jsstring \<Rightarrow> bool" where
  "implementationPresent raw =
     list_ex (\<lambda>n. list_ex (\<lambda>key. includesStr n key) (map fst IMPLEMENTATION_INDICATORS))
       (decodedNames raw)"

text \<open>
  What the loop of \<open>detectJsf\<close> keeps true of its variables: the AJAX and view-state
  flags are only set together with the standard flag, and the standard flag only together
  with an indicator.
\<close>

definition scanInv :: "DetectorState \<Rightarrow> bool" where
  "scanInv st =
     ((hasAjax st \<or> hasViewState st \<longrightarrow> hasStandardJsf st) \<and>
      (hasStandardJsf st \<longrightarrow> found st \<noteq> []))"

section \<open>Result types (types.ts)\<close>

text \<open>
  The interfaces of types.ts in their order. \<open>ViewStateParameter\<close> and
  \<open>ViewStateAnalysis\<close> share the field names \<open>encoding\<close>, \<open>decodedContent\<close> and
  \<open>warnings\<close>: unqualified, they are the fields of the analysis.
\<close>

datatype Encoding = Base64 | Encrypted | UnknownEncoding

record AnnotatedParameter = ParsedParameter +
  annotation :: jsstring

record ComponentIdParameter = ParsedParameter +
  hierarchy :: "ComponentIdLevel list"

record ViewStateParameter = ParsedParameter +
  encoding :: Encoding
  decodedContent :: "jsstring option"
  warnings :: "jsstring list"

record CategorizedParameters =
  standardJsf :: "AnnotatedParameter list"
  componentIds :: "ComponentIdParameter list"
  viewState :: "ViewStateParameter option"
  formSubmit :: "AnnotatedParameter list"
  custom :: "ParsedParameter list"

record ViewStateAnalysis =
  encoding :: Encoding
  decodedContent :: "jsstring option"
  isSerializedJava :: bool
  warnings :: "jsstring list"

section \<open>View-state analysis (viewstate.ts)\<close>

text \<open>
  The built-in \<open>atob\<close>, after the forgiving-base64 decoding of the HTML standard: ASCII
  whitespace is removed; if the length is then a multiple of four, one or two closing
  \<open>=\<close> are removed; a length that leaves the remainder one, or a code unit outside the
  base64 alphabet, is an error (\<open>None\<close> for the exception thrown); otherwise every four
  code units give three bytes, and a rest of three or two gives two bytes or one.
\<close>

definition isAsciiWhitespace :: "nat \<Rightarrow> bool" where
  "isAsciiWhitespace c = (c = 9 \<or> c = 10 \<or> c = 12 \<or> c = 13 \<or> c = 32)"

definition isBase64Char :: "nat \<Rightarrow> bool" where
  "isBase64Char c =
     ((65 \<le> c \<and> c \<le> 90) \<or> (97 \<le> c \<and> c \<le> 122) \<or> (48 \<le> c \<and> c \<le> 57) \<or> c = 43 \<or> c = 47)"

definition sextet :: "nat \<Rightarrow> nat" where
  "sextet c =
     (if 65 \<le> c \<and> c \<le> 90 then c - 65
      else if 97 \<le> c \<and> c \<le> 122 then c - 71
      else if 48 \<le> c \<and> c \<le> 57 then c + 4
      else if c = 43 then 62 else 63)"

fun decodeSextets :: "nat list \<Rightarrow> jsstring" where
  "decodeSextets (a # b # c # d # rest) =
     (a * 4 + b div 16) # ((b mod 16) * 16 + c div 4) # ((c mod 4) * 64 + d) # decodeSextets rest"
| "decodeSextets [a, b, c] = [a * 4 + b div 16, (b mod 16) * 16 + c div 4]"
| "decodeSextets [a, b] = [a * 4 + b div 16]"
| "decodeSextets rest = []"

definition stripPadding :: "jsstring \<Rightarrow> jsstring" where
  "stripPadding data =
     (if length data mod 4 = 0
      then (if endsWith data (str ''=='') then take (length data - 2) data
            else if endsWith data (str ''='') then take (length data - 1) data
            else data)
      else data)"

definition atob :: "jsstring \<Rightarrow> jsstring option" where
  "atob data =
     (let stripped = stripPadding (filter (\<lambda>c. \<not> isAsciiWhitespace c) data)
      in if length stripped mod 4 = 1 then None
         else if \<not> list_all isBase64Char stripped then None
         else Some (decodeSextets (map sextet stripped)))"

text \<open>
  The regular expression \<open>/^[A-Za-z0-9+/]*={0,2}$/\<close>: since \<open>=\<close> is not in the
  character class, a string matches exactly when what follows its longest prefix of
  class characters is empty, \<open>=\<close> or \<open>==\<close>.
\<close>

definition base64Regex :: "jsstring \<Rightarrow> bool" where
  "base64Regex s =
     (let rest = dropWhile isBase64Char s
      in rest = [] \<or> rest = str ''='' \<or> rest = str ''=='')"

definition isBase64 :: "jsstring \<Rightarrow> bool" where
  "isBase64 s =
     (if s = [] then False
      else if \<not> base64Regex s then False
      else if length s mod 4 \<noteq> 0 then False
      else (case atob s of
              Some decoded \<Rightarrow> length decoded > 0
            | None \<Rightarrow> False))"

definition JAVA_SERIALIZATION_MAGIC :: "nat list" where
  "JAVA_SERIALIZATION_MAGIC = [172, 237]"

text \<open>The argument is a \<open>Uint8Array\<close>, a list of bytes.\<close>

definition detectSerializedJava :: "nat list \<Rightarrow> bool" where
  "detectSerializedJava decoded =
     (if length decoded < 2 then False
      else decoded ! 0 = JAVA_SERIALIZATION_MAGIC ! 0 \<and> decoded ! 1 = JAVA_SERIALIZATION_MAGIC ! 1)"

text \<open>
  \<open>analyzeViewState\<close> as viewstate.ts exports it. Storing a code unit in the
  \<open>Uint8Array\<close> keeps its low eight bits.
\<close>

fun analyzeViewState :: "jsvalue \<Rightarrow> ViewStateAnalysis" where
  "analyzeViewState JsNonString =
     \<lparr> encoding = UnknownEncoding, decodedContent = None, isSerializedJava = False,
       warnings = [str ''ViewState value is empty or invalid''] \<rparr>"
| "analyzeViewState (JsString s) =
     (if s = []
      then \<lparr> encoding = UnknownEncoding, decodedContent = None, isSerializedJava = False,
             warnings = [str ''ViewState value is empty or invalid''] \<rparr>
      else if isBase64 s
      then (case atob s of
              Some decoded \<Rightarrow>
                (let uint8Array = map (\<lambda>c. c mod 256) decoded
                 in if detectSerializedJava uint8Array
                    then \<lparr> encoding = Base64, decodedContent = Some decoded, isSerializedJava = True,
                           warnings = [str ''ViewState contains serialized Java object - potential deserialization vulnerability''] \<rparr>
                    else \<lparr> encoding = Base64, decodedContent = Some decoded, isSerializedJava = False,
                           warnings = [] \<rparr>)
            | None \<Rightarrow>
                \<lparr> encoding = Base64, decodedContent = None, isSerializedJava = False,
                  warnings = [str ''Failed to decode Base64 ViewState''] \<rparr>)
      else \<lparr> encoding = Encrypted, decodedContent = None, isSerializedJava = False,
             warnings = [str ''ViewState is not Base64 encoded - likely encrypted or using custom encoding''] \<rparr>)"

section \<open>Categorizer (categorizer.ts)\<close>

text \<open>
  The two analysers that categorizer.ts declares for itself, under the names of the
  functions of componentId.ts and viewstate.ts, and calls instead of them.
\<close>

definition Categorizer_parseComponentId :: "jsstring \<Rightarrow> ComponentIdLevel list" where
  "Categorizer_parseComponentId s = [\<lparr> id = s, type = Unknown, depth = 0 \<rparr>]"

definition Categorizer_analyzeViewState :: "jsstring \<Rightarrow> ViewStateAnalysis" where
  "Categorizer_analyzeViewState s =
     \<lparr> encoding = UnknownEncoding, decodedContent = None, isSerializedJava = False,
       warnings = [] \<rparr>"

definition isStandardJsfParameter :: "jsstring \<Rightarrow> bool" where
  "isStandardJsfParameter n = startsWith n (str ''javax.faces.'')"

definition isComponentIdParameter :: "jsstring \<Rightarrow> bool" where
  "isComponentIdParameter n = includesStr n (str ''j_id_'')"

definition isFormSubmitParameter :: "jsstring \<Rightarrow> bool" where
  "isFormSubmitParameter n = endsWith n (str ''_SUBMIT'')"

definition isViewStateParameter :: "jsstring \<Rightarrow> bool" where
  "isViewStateParameter n = (n = str ''javax.faces.ViewState'')"

text \<open>The union type that \<open>categorizeParameter\<close> returns.\<close>

datatype Categorized =
    Plain ParsedParameter
  | Annotated AnnotatedParameter
  | ComponentIdP ComponentIdParameter
  | ViewStateP ViewStateParameter

definition categorizeParameter :: "ParsedParameter \<Rightarrow> Categorized" where
  "categorizeParameter param =
     (if isViewStateParameter (decodedName param)
      then (let analysis = Categorizer_analyzeViewState (decodedValue param)
            in ViewStateP
                 \<lparr> name = name param, decodedName = decodedName param,
                   value = value param, decodedValue = decodedValue param,
                   category = Some ViewState,
                   ViewStateParameter.encoding = encoding analysis,
                   ViewStateParameter.decodedContent = decodedContent analysis,
                   ViewStateParameter.warnings = warnings analysis \<rparr>)
      else if isStandardJsfParameter (decodedName param)
      then (let ann = getAnnotation (decodedName param)
            in Annotated
                 \<lparr> name = name param, decodedName = decodedName param,
                   value = value param, decodedValue = decodedValue param,
                   category = Some StandardJsf,
                   annotation = (case ann of None \<Rightarrow> [] | Some a \<Rightarrow> if a = [] then [] else a) \<rparr>)
      else if isComponentIdParameter (decodedName param)
      then (let h = Categorizer_parseComponentId (decodedName param)
            in ComponentIdP
                 \<lparr> name = name param, decodedName = decodedName param,
                   value = value param, decodedValue = decodedValue param,
                   category = Some ComponentId,
                   hierarchy = h \<rparr>)
      else if isFormSubmitParameter (decodedName param)
      then Annotated
             \<lparr> name = name param, decodedName = decodedName param,
               value = value param, decodedValue = decodedValue param,
               category = Some FormSubmit,
               annotation = SUBMIT_ANNOTATION \<rparr>
      else Plain
             \<lparr> name = name param, decodedName = decodedName param,
               value = value param, decodedValue = decodedValue param,
               category = Some Custom \<rparr>)"

text \<open>
  One turn of the loop of \<open>categorizeParameters\<close>: the \<open>switch\<close> on the category of the
  categorized value. A cast of the source changes no value, so each branch stores the
  value of the variant that carries the category.
\<close>

fun place :: "CategorizedParameters \<Rightarrow> Categorized \<Rightarrow> CategorizedParameters" where
  "place result (Annotated a) =
     (if category a = Some StandardJsf then result \<lparr> standardJsf := standardJsf result @ [a] \<rparr>
      else if category a = Some FormSubmit then result \<lparr> formSubmit := formSubmit result @ [a] \<rparr>
      else result)"
| "place result (ComponentIdP c) =
     (if category c = Some ComponentId then result \<lparr> componentIds := componentIds result @ [c] \<rparr>
      else result)"
| "place result (ViewStateP v) =
     (if category v = Some ViewState then result \<lparr> viewState := Some v \<rparr>
      else result)"
| "place result (Plain p) =
     (if category p = Some Custom then result \<lparr> custom := custom result @ [p] \<rparr>
      else result)"

definition categorizeStep :: "CategorizedParameters \<Rightarrow> ParsedParameter \<Rightarrow> CategorizedParameters" where
  "categorizeStep result param = place result (categorizeParameter param)"

definition categorizeParameters :: "ParsedParameter list \<Rightarrow> CategorizedParameters" where
  "categorizeParameters params =
     foldl categorizeStep
       \<lparr> standardJsf = [], componentIds = [], viewState = None, formSubmit = [], custom = [] \<rparr>
       params"

section \<open>Value explanations (valueAnalyzer.ts)\<close>

text \<open>
  The \<open>isBase64\<close> of valueAnalyzer.ts, another function than the one of viewstate.ts:
  at least four code units, the regular expression \<open>/^[A-Za-z0-9+/]+=*$/\<close> (a non-empty
  run of class characters, then nothing but \<open>=\<close>), and a length that is a multiple of
  four.
\<close>

definition valueAnalyzer_isBase64 :: "jsstring \<Rightarrow> bool" where
  "valueAnalyzer_isBase64 s =
     (if s = [] \<or> length s < 4 then False
      else (takeWhile isBase64Char s \<noteq> [] \<and> list_all (\<lambda>c. c = 61) (dropWhile isBase64Char s))
           \<and> length s mod 4 = 0)"

text \<open>
  Numbers in template strings. \<open>decimal n\<close> is the string of a length \<open>n\<close>; \<open>toFixed2\<close>
  is \<open>(n / 1024).toFixed(2)\<close>: the quotient is exact in floating point (division of an
  integer below \<open>2^53\<close> by a power of two), and \<open>toFixed\<close> rounds it to the nearest
  hundredth, upwards from the middle.
\<close>

fun decimal :: "nat \<Rightarrow> jsstring" where
  "decimal n = (if n < 10 then [48 + n] else decimal (n div 10) @ [48 + n mod 10])"

declare decimal.simps [simp del]

definition toFixed2 :: "nat \<Rightarrow> jsstring" where
  "toFixed2 n =
     (let hundredths = (200 * n + 1024) div 2048
      in decimal (hundredths div 100) @ str ''.''
           @ [48 + (hundredths mod 100) div 10, 48 + hundredths mod 10])"

text \<open>The \<open>analyzeViewState\<close> of valueAnalyzer.ts, which explains a view-state value.\<close>

definition valueAnalyzer_analyzeViewState :: "jsstring \<Rightarrow> ValueAnalysis" where
  "valueAnalyzer_analyzeViewState s =
     (let details1 =
            (if valueAnalyzer_isBase64 s
             then (if length s > 100
                   then [str ''Encoding: Base64'', str ''Likely encrypted or compressed'',
                         str ''Contains serialized component tree state'']
                   else [str ''Encoding: Base64'', str ''Short ViewState - possibly stateless mode''])
             else if startsWith s (str ''stateless'')
             then [str ''Stateless mode enabled'', str ''No server-side state stored'',
                   str ''State is reconstructed on each request'']
             else [str ''Custom ViewState format'']);
          warning1 =
            (if valueAnalyzer_isBase64 s \<and> \<not> length s > 100
             then Some (str ''Short ViewState may indicate client-side state storage'')
             else None);
          sizeKB = toFixed2 (length s);
          details2 = details1 @ [str ''Size: '' @ decimal (length s) @ str '' bytes ('' @ sizeKB @ str '' KB)''];
          warning2 =
            (if length s > 10000
             then Some (str ''Large ViewState detected - may impact performance and bandwidth'')
             else warning1)
      in \<lparr> ValueAnalysis.type = str ''ViewState'',
           explanation = str ''Contains the serialized state of the JSF component tree'',
           details = Some details2,
           warning = warning2 \<rparr>)"

section \<open>Notions used to state the properties of the categorizer\<close>

text \<open>
  What a categorized parameter keeps of the parsed parameter it was made from; the
  category that the precedence of the rules gives to a decoded name; and the number of
  buckets of a result in which a parameter is found.
\<close>

definition core :: "'a ParsedParameter_scheme \<Rightarrow> jsstring \<times> jsstring \<times> jsstring \<times> jsstring" where
  "core p = (name p, decodedName p, value p, decodedValue p)"

definition categoryRule :: "jsstring \<Rightarrow> ParameterCategory" where
  "categoryRule n =
     (if n = str ''javax.faces.ViewState'' then ViewState
      else if startsWith n (str ''javax.faces.'') then StandardJsf
      else if includesStr n (str ''j_id_'') then ComponentId
      else if endsWith n (str ''_SUBMIT'') then FormSubmit
      else Custom)"

definition inCategory :: "ParameterCategory \<Rightarrow> ParsedParameter \<Rightarrow> bool" where
  "inCategory c p = (categoryRule (decodedName p) = c)"

definition viewStateSlot :: "CategorizedParameters \<Rightarrow> (jsstring \<times> jsstring \<times> jsstring \<times> jsstring) list" where
  "viewStateSlot r = (case viewState r of None \<Rightarrow> [] | Some v \<Rightarrow> [core v])"

definition bucketsHolding ::
  "CategorizedParameters \<Rightarrow> jsstring \<times> jsstring \<times> jsstring \<times> jsstring \<Rightarrow> nat" where
  "bucketsHolding r x =
     (if x \<in> set (map core (standardJsf r)) then 1 else 0)
     + (if x \<in> set (map core (componentIds r)) then 1 else 0)
     + (if x \<in> set (viewStateSlot r) then 1 else 0)
     + (if x \<in> set (map core (formSubmit r)) then 1 else 0)
     + (if x \<in> set (map core (custom r)) then 1 else 0)"

section \<open>Facts about strings\<close>

lemma split_not_Nil: "split s sep \<noteq> []"
  by (induction s) (auto split: list.splits)

lemma join_Cons:
  "ts \<noteq> [] \<Longrightarrow> join (t # ts) sep = t @ sep @ join ts sep"
  by (cases ts) simp_all

lemma join_split: "join (split s sep) [sep] = s"
proof (induction s)
  case Nil
  show ?case by simp
next
  case (Cons c s)
  obtain t ts where ts: "split s sep = t # ts"
    using split_not_Nil [of s sep] by (cases "split s sep") auto
  show ?case
  proof (cases "c = sep")
    case True
    with Cons show ?thesis by (simp add: join_Cons split_not_Nil)
  next
    case False
    with Cons ts show ?thesis by (cases ts) simp_all
  qed
qed

lemma length_map_index: "length (map_index f i xs) = length xs"
  by (induction xs arbitrary: i) simp_all

lemma nth_map_index: "n < length xs \<Longrightarrow> map_index f i xs ! n = f (xs ! n) (i + n)"
proof (induction xs arbitrary: i n)
  case Nil
  then show ?case by simp
next
  case (Cons x xs)
  then show ?case by (cases n) simp_all
qed

lemma map_id_map_index_mkLevel:
  "map (\<lambda>level. ComponentIdLevel.id level) (map_index mkLevel i parts) = parts"
  by (induction parts arbitrary: i) (simp_all add: mkLevel_def)

section \<open>Component identifiers: the hierarchy is lossless\<close>

text \<open>
  C4. For every string \<open>s\<close> (the empty string, and strings with leading, trailing or
  doubled colons included), joining the \<open>id\<close> tokens of the parsed levels with a colon
  gives \<open>s\<close> back: \<open>formatComponentIdTree (parseComponentId s) = s\<close>.
\<close>

theorem C4_component_id_round_trip:
  "formatComponentIdTree (parseComponentId s) = s"
proof (cases "s = []")
  case True
  then show ?thesis by (simp add: parseComponentId_def formatComponentIdTree_def)
next
  case False
  have "map_index mkLevel 0 (split s (of_char CHR '':'')) \<noteq> []"
    using split_not_Nil [of s "of_char CHR '':''"] length_map_index [of mkLevel 0 "split s (of_char CHR '':'')"]
    by (metis length_0_conv)
  with False show ?thesis
    using join_split [of s "of_char CHR '':''"]
    by (simp add: parseComponentId_def formatComponentIdTree_def Let_def
        map_id_map_index_mkLevel)
qed

text \<open>
  C6. Every level of a parsed identifier stands for the token at its own position of the
  colon split: its \<open>depth\<close> is that zero-based position, its \<open>type\<close> is \<open>Index\<close> exactly
  when the token matches \<open>^\\d+$\<close>, \<open>Unknown\<close> exactly when the token is empty, and
  \<open>Component\<close> otherwise; a non-empty identifier has one level per token.
\<close>

theorem C6_level_classification:
  "(s \<noteq> [] \<longrightarrow> length (parseComponentId s) = length (split s (of_char CHR '':''))) \<and>
   (\<forall>i < length (parseComponentId s).
      ComponentIdLevel.id (parseComponentId s ! i) = split s (of_char CHR '':'') ! i \<and>
      depth (parseComponentId s ! i) = i \<and>
      (type (parseComponentId s ! i) = Index
         \<longleftrightarrow> matchesDigits (split s (of_char CHR '':'') ! i)) \<and>
      (type (parseComponentId s ! i) = Unknown
         \<longleftrightarrow> split s (of_char CHR '':'') ! i = []) \<and>
      (type (parseComponentId s ! i) = Component
         \<longleftrightarrow> \<not> matchesDigits (split s (of_char CHR '':'') ! i) \<and> split s (of_char CHR '':'') ! i \<noteq> []))"
proof (cases "s = []")
  case True
  then show ?thesis by (simp add: parseComponentId_def)
next
  case False
  then have p: "parseComponentId s = map_index mkLevel 0 (split s (of_char CHR '':''))"
    by (simp add: parseComponentId_def)
  show ?thesis
    unfolding p
    by (auto simp: length_map_index nth_map_index mkLevel_def matchesDigits_def)
qed

theorem C6_level_classification_witness:
  "parseComponentId (str ''j_id_3x:j_id_40:0:j_id_42'') =
     [\<lparr> id = str ''j_id_3x'', type = Component, depth = 0 \<rparr>,
      \<lparr> id = str ''j_id_40'', type = Component, depth = 1 \<rparr>,
      \<lparr> id = str ''0'', type = Index, depth = 2 \<rparr>,
      \<lparr> id = str ''j_id_42'', type = Component, depth = 3 \<rparr>]
   \<and> type (parseComponentId (str ''j_id_3x:j_id_40:0:j_id_42'') ! 2) = Index
   \<and> matchesDigits (split (str ''j_id_3x:j_id_40:0:j_id_42'') (of_char CHR '':'') ! 2)"
proof -
  have e: "parseComponentId (str ''j_id_3x:j_id_40:0:j_id_42'') =
     [\<lparr> id = str ''j_id_3x'', type = Component, depth = 0 \<rparr>,
      \<lparr> id = str ''j_id_40'', type = Component, depth = 1 \<rparr>,
      \<lparr> id = str ''0'', type = Index, depth = 2 \<rparr>,
      \<lparr> id = str ''j_id_42'', type = Component, depth = 3 \<rparr>]"
    by (simp add: parseComponentId_def mkLevel_def matchesDigits_def isDigit_def)
  have l: "2 < length (parseComponentId (str ''j_id_3x:j_id_40:0:j_id_42''))"
    unfolding e by simp
  have t: "type (parseComponentId (str ''j_id_3x:j_id_40:0:j_id_42'') ! 2) = Index"
    unfolding e by simp
  from C6_level_classification [of "str ''j_id_3x:j_id_40:0:j_id_42''"] l t
  have "matchesDigits (split (str ''j_id_3x:j_id_40:0:j_id_42'') (of_char CHR '':'') ! 2)"
    by blast
  with e t show ?thesis by blast
qed


section \<open>Form Decoder\<close>

lemma indexOf_single_name:
  "(case indexOf s [c] of None \<Rightarrow> s | Some i \<Rightarrow> take i s) = takeWhile (\<lambda>x. x \<noteq> c) s"
  by (induction s) (auto simp: startsWith_def split: option.splits)

lemma indexOf_single_value:
  "(case indexOf s [c] of None \<Rightarrow> [] | Some i \<Rightarrow> drop (i + 1) s)
     = drop 1 (dropWhile (\<lambda>x. x \<noteq> c) s)"
  by (induction s) (auto simp: startsWith_def split: option.splits)

lemma decodeParameter_once: "decodeParameter field = specDecodeOnce field"
  by (simp add: decodeParameter_def specDecodeOnce_def)

lemma parsePair_spec: "parsePair pair = specParameter pair"
  using indexOf_single_name [of pair "of_char CHR ''=''"]
    indexOf_single_value [of pair "of_char CHR ''=''"]
  by (simp add: parsePair_def specParameter_def specName_def specValue_def Let_def
      decodeParameter_once)

lemma parsePairs_filter:
  "parsePairs params pairs = params @ map parsePair (filter (\<lambda>pair. pair \<noteq> []) pairs)"
  by (induction pairs arbitrary: params) simp_all

text \<open>
  C7. For every body, \<open>parseUrlEncodedBody\<close> returns one parameter for each non-empty
  segment between \<open>&\<close>, in the order of the body; the name is the segment up to its first
  \<open>=\<close> and the value what follows it (empty when there is no \<open>=\<close>); each decoded field is
  the result of one call of \<open>decodeURIComponent\<close> on the raw field, or the raw field
  itself when that call fails. A doubly encoded field is decoded one level only, and a
  malformed field stays as it is while its neighbours are decoded.
\<close>

theorem C7_form_decoder:
  "parseUrlEncodedBody body
     = map specParameter (filter (\<lambda>segment. segment \<noteq> []) (split body (of_char CHR ''&'')))
   \<and> parseUrlEncodedBody body = specFormDecoder body
   \<and> decodeParameter (str ''hello%2520world'') = str ''hello%20world''
   \<and> parseUrlEncodedBody (str ''a=%ZZ&&b%3D=%41=c'')
       = [\<lparr> name = str ''a'', decodedName = str ''a'',
            value = str ''%ZZ'', decodedValue = str ''%ZZ'', category = None \<rparr>,
          \<lparr> name = str ''b%3D'', decodedName = str ''b='',
            value = str ''%41=c'', decodedValue = str ''A=c'', category = None \<rparr>]"
proof -
  have general: "parseUrlEncodedBody body = specFormDecoder body"
    by (simp add: parseUrlEncodedBody_def specFormDecoder_def parsePairs_filter parsePair_spec)
  have once: "decodeParameter (str ''hello%2520world'') = str ''hello%20world''"
    by code_simp
  have malformed: "parseUrlEncodedBody (str ''a=%ZZ&&b%3D=%41=c'')
       = [\<lparr> name = str ''a'', decodedName = str ''a'',
            value = str ''%ZZ'', decodedValue = str ''%ZZ'', category = None \<rparr>,
          \<lparr> name = str ''b%3D'', decodedName = str ''b='',
            value = str ''%41=c'', decodedValue = str ''A=c'', category = None \<rparr>]"
    by code_simp
  from general once malformed show ?thesis
    unfolding specFormDecoder_def by blast
qed

section \<open>Detector\<close>

lemma scanVersions_empty:
  "scanVersions dn fs entries \<noteq> [] \<longleftrightarrow> fs \<noteq> [] \<or> dn \<in> fst ` set entries"
  by (induction dn fs entries rule: scanVersions.induct) auto

lemma scanParameter_inv: "scanInv st \<Longrightarrow> scanInv (scanParameter st p)"
  by (auto simp: scanInv_def scanParameter_def Let_def)

lemma foldl_scan_inv: "scanInv st \<Longrightarrow> scanInv (foldl scanParameter st ps)"
  by (induction ps arbitrary: st) (simp_all add: scanParameter_inv)

lemma foldl_scan_standard:
  "hasStandardJsf (foldl scanParameter st ps) \<longleftrightarrow>
     hasStandardJsf st \<or> (\<exists>p \<in> set ps. startsWith (decodedName p) (str ''javax.faces.''))"
  by (induction ps arbitrary: st) (auto simp: scanParameter_def Let_def)

lemma foldl_scan_found:
  "found (foldl scanParameter st ps) \<noteq> [] \<longleftrightarrow>
     found st \<noteq> [] \<or> (\<exists>p \<in> set ps. startsWith (decodedName p) (str ''javax.faces.'')
                            \<or> endsWith (decodedName p) (str ''_SUBMIT''))"
  by (induction ps arbitrary: st) (auto simp: scanParameter_def Let_def)

lemma foldl_scan_versions:
  "versionFeatures (foldl scanParameter st ps) \<noteq> [] \<longleftrightarrow>
     versionFeatures st \<noteq> [] \<or> (\<exists>p \<in> set ps. decodedName p \<in> fst ` set VERSION_INDICATORS)"
proof (induction ps arbitrary: st)
  case Nil
  show ?case by simp
next
  case (Cons p ps)
  have "versionFeatures (scanParameter st p) \<noteq> [] \<longleftrightarrow>
          versionFeatures st \<noteq> [] \<or> decodedName p \<in> fst ` set VERSION_INDICATORS"
    by (simp add: scanParameter_def Let_def scanVersions_empty)
  with Cons [of "scanParameter st p"] show ?case by auto
qed

lemma firstIncluded_None:
  "firstIncluded n entries = None \<longleftrightarrow> \<not> list_ex (\<lambda>key. includesStr n key) (map fst entries)"
  by (induction n entries rule: firstIncluded.induct) auto

lemma firstIncluded_in: "firstIncluded n entries = Some v \<Longrightarrow> v \<in> snd ` set entries"
  by (induction n entries rule: firstIncluded.induct) (auto split: if_splits)

lemma detectImplementation_None:
  "detectImplementation names = None \<longleftrightarrow>
     \<not> list_ex (\<lambda>n. list_ex (\<lambda>key. includesStr n key) (map fst IMPLEMENTATION_INDICATORS)) names"
proof (induction names)
  case Nil
  show ?case by simp
next
  case (Cons n names)
  show ?case
  proof (cases "firstIncluded n IMPLEMENTATION_INDICATORS")
    case None
    with Cons firstIncluded_None [of n IMPLEMENTATION_INDICATORS] show ?thesis by simp
  next
    case (Some w)
    with firstIncluded_None [of n IMPLEMENTATION_INDICATORS] show ?thesis by simp
  qed
qed

lemma detectImplementation_nonempty: "detectImplementation names = Some v \<Longrightarrow> v \<noteq> []"
proof (induction names)
  case Nil
  then show ?case by simp
next
  case (Cons n names)
  show ?case
  proof (cases "firstIncluded n IMPLEMENTATION_INDICATORS")
    case None
    with Cons show ?thesis by simp
  next
    case (Some w)
    with Cons.prems have "v \<in> snd ` set IMPLEMENTATION_INDICATORS"
      using firstIncluded_in [of n IMPLEMENTATION_INDICATORS w] by simp
    then show ?thesis by (auto simp: IMPLEMENTATION_INDICATORS_def)
  qed
qed

lemma canonical_prefix:
  "n \<in> set STANDARD_JSF_PARAMS \<Longrightarrow> startsWith n (str ''javax.faces.'')"
  by (auto simp: STANDARD_JSF_PARAMS_def startsWith_def)

text \<open>
  C8. Whatever \<open>detectJsf\<close> is given, a string or not, the \<open>isJsf\<close> of its result is true
  exactly when the list of indicators of the result is not empty.
\<close>

theorem C8_detected_iff_indicators:
  "isJsf (detectJsf v) = (length (indicators (detectJsf v)) > 0)"
  by (cases v) (simp_all add: notJsf_def Let_def)



text \<open>
  C1, as the specification words it, fails: the body \<open>jffi=1\<close> holds no canonical
  parameter name and no name ending in \<open>_SUBMIT\<close>, yet \<open>detectJsf\<close> reports it as detected
  with confidence \<open>Medium\<close>, through the version indicator of the key \<open>jffi\<close>.
\<close>

theorem C1_counterexample:
  "isJsf (detectJsf (JsString (str ''jffi=1''))) \<and>
   confidence (detectJsf (JsString (str ''jffi=1''))) = Medium \<and>
   indicators (detectJsf (JsString (str ''jffi=1''))) = [str ''Version features: JSF 2.2+ (Faces Flow)''] \<and>
   \<not> specCanonicalPresent (str ''jffi=1'') \<and>
   \<not> specSubmitPresent (str ''jffi=1'') \<and>
   \<not> specDetection (str ''jffi=1'') (detectJsf (JsString (str ''jffi=1'')))"
  by code_simp

text \<open>
  C1, amended. For every input string, \<open>isJsf\<close> is true exactly when some decoded
  parameter name starts with the namespace prefix \<open>javax.faces.\<close>, or ends in \<open>_SUBMIT\<close>,
  or is a key of the version table, or contains an implementation fingerprint. The
  confidence is \<open>High\<close> exactly when a name with the prefix is present, \<open>Medium\<close> exactly
  when the input is detected without such a name, and \<open>Low\<close> exactly when it is not
  detected. Every canonical name has the prefix.
\<close>

theorem C1_detection_by_prefix:
  "(isJsf (detectJsf (JsString raw)) \<longleftrightarrow>
      prefixPresent raw \<or> specSubmitPresent raw \<or> versionKeyPresent raw \<or> implementationPresent raw) \<and>
   (confidence (detectJsf (JsString raw)) = High \<longleftrightarrow> prefixPresent raw) \<and>
   (confidence (detectJsf (JsString raw)) = Medium \<longleftrightarrow>
      isJsf (detectJsf (JsString raw)) \<and> \<not> prefixPresent raw) \<and>
   (confidence (detectJsf (JsString raw)) = Low \<longleftrightarrow> \<not> isJsf (detectJsf (JsString raw))) \<and>
   (specCanonicalPresent raw \<longrightarrow> prefixPresent raw)"
proof -
  define ps where "ps = parameters (parseJsfBody raw)"
  define st where "st = scanParameters ps"
  have inv: "scanInv st"
    unfolding st_def scanParameters_def by (rule foldl_scan_inv) (simp add: scanInv_def)
  have std: "hasStandardJsf st \<longleftrightarrow> prefixPresent raw"
    unfolding st_def scanParameters_def foldl_scan_standard
    by (simp add: prefixPresent_def decodedNames_def ps_def list_ex_iff)
  have fnd: "found st \<noteq> [] \<longleftrightarrow> prefixPresent raw \<or> specSubmitPresent raw"
    unfolding st_def scanParameters_def foldl_scan_found
    by (auto simp: prefixPresent_def specSubmitPresent_def decodedNames_def ps_def list_ex_iff)
  have ver: "versionFeatures st \<noteq> [] \<longleftrightarrow> versionKeyPresent raw"
    unfolding st_def scanParameters_def foldl_scan_versions
    by (auto simp: versionKeyPresent_def decodedNames_def ps_def list_ex_iff)
  have imp: "detectImplementation (map decodedName ps) = None \<longleftrightarrow> \<not> implementationPresent raw"
    by (simp add: detectImplementation_None implementationPresent_def decodedNames_def ps_def)
  have empty: "ps = [] \<Longrightarrow> \<not> prefixPresent raw \<and> \<not> specSubmitPresent raw \<and>
      \<not> versionKeyPresent raw \<and> \<not> implementationPresent raw"
    by (simp add: prefixPresent_def specSubmitPresent_def versionKeyPresent_def
        implementationPresent_def decodedNames_def ps_def)
  have raw_empty: "raw = [] \<Longrightarrow> ps = []"
    by (simp add: ps_def parseJsfBody_def)
  have canon: "specCanonicalPresent raw \<longrightarrow> prefixPresent raw"
    using canonical_prefix
    by (auto simp: specCanonicalPresent_def prefixPresent_def list_ex_iff)
  show ?thesis
  proof (cases "ps = []")
    case True
    then have "detectJsf (JsString raw) = notJsf"
      by (simp add: ps_def Let_def)
    with empty [OF True] canon show ?thesis by (simp add: notJsf_def)
  next
    case False
    then have nonempty: "raw \<noteq> []" using raw_empty by blast
    show ?thesis
    proof (cases "detectImplementation (map decodedName ps)")
      case None
      with False nonempty inv std fnd ver imp canon show ?thesis
        by (auto simp: Let_def ps_def [symmetric] st_def [symmetric] scanInv_def)
    next
      case (Some impl)
      with detectImplementation_nonempty have "impl \<noteq> []" by blast
      with Some False nonempty inv std fnd ver imp canon show ?thesis
        by (auto simp: Let_def ps_def [symmetric] st_def [symmetric] scanInv_def)
    qed
  qed
qed

theorem C1_detection_by_prefix_witness:
  "specCanonicalPresent (str ''javax.faces.ViewState=abc123&form_SUBMIT=1'') \<and>
   prefixPresent (str ''javax.faces.ViewState=abc123&form_SUBMIT=1'') \<and>
   isJsf (detectJsf (JsString (str ''javax.faces.ViewState=abc123&form_SUBMIT=1''))) \<and>
   confidence (detectJsf (JsString (str ''javax.faces.ViewState=abc123&form_SUBMIT=1''))) = High"
proof -
  have c: "specCanonicalPresent (str ''javax.faces.ViewState=abc123&form_SUBMIT=1'')"
    by code_simp
  from c C1_detection_by_prefix [of "str ''javax.faces.ViewState=abc123&form_SUBMIT=1''"]
  show ?thesis by blast
qed


section \<open>View-state analysis\<close>


lemma base64Char_not_whitespace: "isBase64Char c \<Longrightarrow> \<not> isAsciiWhitespace c"
  by (auto simp: isBase64Char_def isAsciiWhitespace_def)

lemma base64Char_not_pad: "isBase64Char c \<Longrightarrow> c \<noteq> 61"
  by (auto simp: isBase64Char_def)

lemma stripPadding_body:
  assumes body: "list_all isBase64Char body"
    and pad: "pad = [] \<or> pad = [61] \<or> pad = [61, 61]"
    and len: "length (body @ pad) mod 4 = 0"
  shows "stripPadding (body @ pad) = body"
proof -
  have no: "61 \<notin> set body"
    using body base64Char_not_pad by (auto simp: list_all_iff)
  from pad consider "pad = []" | "pad = [61]" | "pad = [61, 61]" by blast
  then show ?thesis
  proof cases
    case 1
    have "\<not> endsWith body [61, 61]"
    proof
      assume "endsWith body [61, 61]"
      then have "set [61, 61] \<subseteq> set body"
        unfolding endsWith_def by (metis set_drop_subset)
      with no show False by simp
    qed
    moreover have "\<not> endsWith body [61]"
    proof
      assume "endsWith body [61]"
      then have "set [61] \<subseteq> set body"
        unfolding endsWith_def by (metis set_drop_subset)
      with no show False by simp
    qed
    ultimately show ?thesis using 1 len by (simp add: stripPadding_def)
  next
    case 2
    have "\<not> endsWith (body @ [61]) [61, 61]"
    proof
      assume e: "endsWith (body @ [61]) [61, 61]"
      show False
      proof (cases body rule: rev_cases)
        case Nil
        with e show False by (simp add: endsWith_def)
      next
        case (snoc ys y)
        with e have "y = 61" by (simp add: endsWith_def)
        with snoc no show False by simp
      qed
    qed
    moreover have "endsWith (body @ [61]) [61]"
      by (simp add: endsWith_def)
    ultimately show ?thesis using 2 len by (simp add: stripPadding_def)
  next
    case 3
    have "endsWith (body @ [61, 61]) [61, 61]"
      by (simp add: endsWith_def)
    then show ?thesis using 3 len by (simp add: stripPadding_def)
  qed
qed

lemma atob_body:
  assumes body: "list_all isBase64Char body"
    and pad: "pad = [] \<or> pad = [61] \<or> pad = [61, 61]"
    and len: "length (body @ pad) mod 4 = 0"
  shows "atob (body @ pad) = Some (decodeSextets (map sextet body))"
proof -
  have "\<forall>c \<in> set (body @ pad). \<not> isAsciiWhitespace c"
    using body pad base64Char_not_whitespace
    by (auto simp: list_all_iff isAsciiWhitespace_def)
  then have f: "filter (\<lambda>c. \<not> isAsciiWhitespace c) (body @ pad) = body @ pad"
    by (simp only: filter_True)
  have s: "stripPadding (body @ pad) = body"
    using assms by (rule stripPadding_body)
  have lp: "length pad = 0 \<or> length pad = 1 \<or> length pad = 2"
    using pad by auto
  from len have "(length body + length pad) mod 4 = 0"
    by simp
  with lp have m: "length body mod 4 \<noteq> 1"
    by presburger
  show ?thesis
    unfolding atob_def f s Let_def using m body by simp
qed

lemma decodeSextets_nonempty: "2 \<le> length xs \<Longrightarrow> decodeSextets xs \<noteq> []"
  by (induction xs rule: decodeSextets.induct) simp_all

lemma base64Regex_split:
  "base64Regex s \<Longrightarrow> \<exists>body pad. s = body @ pad \<and> list_all isBase64Char body \<and>
      (pad = [] \<or> pad = [61] \<or> pad = [61, 61])"
proof -
  assume r: "base64Regex s"
  have "s = takeWhile isBase64Char s @ dropWhile isBase64Char s" by simp
  moreover have "list_all isBase64Char (takeWhile isBase64Char s)"
    by (simp add: list_all_iff) (meson set_takeWhileD)
  moreover from r have "dropWhile isBase64Char s = [] \<or> dropWhile isBase64Char s = [61]
      \<or> dropWhile isBase64Char s = [61, 61]"
    by (simp add: base64Regex_def Let_def)
  ultimately show ?thesis by blast
qed

lemma isBase64_iff: "isBase64 s \<longleftrightarrow> s \<noteq> [] \<and> base64Regex s \<and> length s mod 4 = 0"
proof (cases "s \<noteq> [] \<and> base64Regex s \<and> length s mod 4 = 0")
  case False
  then show ?thesis by (auto simp: isBase64_def)
next
  case True
  then obtain body pad where sp: "s = body @ pad" and b: "list_all isBase64Char body"
    and p: "pad = [] \<or> pad = [61] \<or> pad = [61, 61]"
    using base64Regex_split by blast
  from True sp have len: "length (body @ pad) mod 4 = 0" by simp
  have a: "atob s = Some (decodeSextets (map sextet body))"
    unfolding sp using b p len by (rule atob_body)
  from True have "length s \<noteq> 0" and "length s mod 4 = 0"
    by simp_all
  then have "4 \<le> length s"
    by presburger
  with sp have "4 \<le> length (body @ pad)"
    by simp
  with p have "2 \<le> length (map sextet body)" by auto
  then have "decodeSextets (map sextet body) \<noteq> []" by (rule decodeSextets_nonempty)
  with True a show ?thesis by (simp add: isBase64_def)
qed

section \<open>Categorizer\<close>


lemma categorizeParameter_cases:
  "categoryRule (decodedName p) = ViewState \<Longrightarrow> \<exists>v. categorizeParameter p = ViewStateP v \<and> category v = Some ViewState \<and> core v = core p"
  "categoryRule (decodedName p) = StandardJsf \<Longrightarrow> \<exists>a. categorizeParameter p = Annotated a \<and> category a = Some StandardJsf \<and> core a = core p"
  "categoryRule (decodedName p) = ComponentId \<Longrightarrow> \<exists>c. categorizeParameter p = ComponentIdP c \<and> category c = Some ComponentId \<and> core c = core p"
  "categoryRule (decodedName p) = FormSubmit \<Longrightarrow> \<exists>a. categorizeParameter p = Annotated a \<and> category a = Some FormSubmit \<and> core a = core p"
  "categoryRule (decodedName p) = Custom \<Longrightarrow> \<exists>q. categorizeParameter p = Plain q \<and> category q = Some Custom \<and> core q = core p"
  by (auto simp: categoryRule_def categorizeParameter_def core_def Let_def
      isViewStateParameter_def isStandardJsfParameter_def isComponentIdParameter_def
      isFormSubmitParameter_def split: if_splits)

lemma step_buckets:
  "map core (standardJsf (categorizeStep r p)) = map core (standardJsf r) @ map core (filter (inCategory StandardJsf) [p])"
  "map core (componentIds (categorizeStep r p)) = map core (componentIds r) @ map core (filter (inCategory ComponentId) [p])"
  "map core (formSubmit (categorizeStep r p)) = map core (formSubmit r) @ map core (filter (inCategory FormSubmit) [p])"
  "map core (custom (categorizeStep r p)) = map core (custom r) @ map core (filter (inCategory Custom) [p])"
  "viewStateSlot (categorizeStep r p) = (if inCategory ViewState p then [core p] else viewStateSlot r)"
  using categorizeParameter_cases [of p]
  by (cases "categoryRule (decodedName p)"; auto simp: inCategory_def viewStateSlot_def categorizeStep_def)+

lemma fold_standardJsf:
  "map core (standardJsf (foldl categorizeStep r ps))
     = map core (standardJsf r) @ map core (filter (inCategory StandardJsf) ps)"
  by (induction ps arbitrary: r) (simp_all add: step_buckets)

lemma fold_componentIds:
  "map core (componentIds (foldl categorizeStep r ps))
     = map core (componentIds r) @ map core (filter (inCategory ComponentId) ps)"
  by (induction ps arbitrary: r) (simp_all add: step_buckets)

lemma fold_formSubmit:
  "map core (formSubmit (foldl categorizeStep r ps))
     = map core (formSubmit r) @ map core (filter (inCategory FormSubmit) ps)"
  by (induction ps arbitrary: r) (simp_all add: step_buckets)

lemma fold_custom:
  "map core (custom (foldl categorizeStep r ps))
     = map core (custom r) @ map core (filter (inCategory Custom) ps)"
  by (induction ps arbitrary: r) (simp_all add: step_buckets)

lemma fold_viewState:
  "viewStateSlot (foldl categorizeStep r ps)
     = (if filter (inCategory ViewState) ps = [] then viewStateSlot r
        else [core (last (filter (inCategory ViewState) ps))])"
  by (induction ps arbitrary: r) (simp_all add: step_buckets)

text \<open>
  C5, amended. For every list of parsed parameters, each of the four list buckets holds,
  in the order of the input, exactly the input parameters to which the precedence of the
  rules gives its category; the view-state slot holds the last view-state-named parameter
  of the input, and nothing when there is none. So every input parameter is found in
  exactly one bucket, except a view-state-named parameter that differs from the last
  view-state-named one: it is found in none.
\<close>

theorem C5_buckets_partition_input:
  "map core (standardJsf (categorizeParameters ps)) = map core (filter (inCategory StandardJsf) ps) \<and>
   map core (componentIds (categorizeParameters ps)) = map core (filter (inCategory ComponentId) ps) \<and>
   map core (formSubmit (categorizeParameters ps)) = map core (filter (inCategory FormSubmit) ps) \<and>
   map core (custom (categorizeParameters ps)) = map core (filter (inCategory Custom) ps) \<and>
   viewStateSlot (categorizeParameters ps)
     = (if filter (inCategory ViewState) ps = [] then []
        else [core (last (filter (inCategory ViewState) ps))]) \<and>
   (\<forall>p \<in> set ps.
      bucketsHolding (categorizeParameters ps) (core p)
        = (if inCategory ViewState p \<and> core p \<noteq> core (last (filter (inCategory ViewState) ps))
           then 0 else 1))"
proof -
  let ?r = "categorizeParameters ps"
  have b1: "map core (standardJsf ?r) = map core (filter (inCategory StandardJsf) ps)"
    by (simp add: categorizeParameters_def fold_standardJsf)
  have b2: "map core (componentIds ?r) = map core (filter (inCategory ComponentId) ps)"
    by (simp add: categorizeParameters_def fold_componentIds)
  have b3: "map core (formSubmit ?r) = map core (filter (inCategory FormSubmit) ps)"
    by (simp add: categorizeParameters_def fold_formSubmit)
  have b4: "map core (custom ?r) = map core (filter (inCategory Custom) ps)"
    by (simp add: categorizeParameters_def fold_custom)
  have b5: "viewStateSlot ?r = (if filter (inCategory ViewState) ps = [] then []
        else [core (last (filter (inCategory ViewState) ps))])"
    unfolding categorizeParameters_def fold_viewState by (simp add: viewStateSlot_def)
  have count: "bucketsHolding ?r (core p)
        = (if inCategory ViewState p \<and> core p \<noteq> core (last (filter (inCategory ViewState) ps))
           then 0 else 1)" if p: "p \<in> set ps" for p
  proof -
    have mem: "core p \<in> set (map core (filter (inCategory c) ps)) \<longleftrightarrow> categoryRule (decodedName p) = c" for c
    proof
      assume "core p \<in> set (map core (filter (inCategory c) ps))"
      then obtain q where "inCategory c q" and "core p = core q"
        by auto
      then show "categoryRule (decodedName p) = c"
        by (simp add: core_def inCategory_def)
    next
      assume "categoryRule (decodedName p) = c"
      with p have "p \<in> set (filter (inCategory c) ps)"
        by (simp add: inCategory_def)
      then have "core p \<in> core ` set (filter (inCategory c) ps)"
        by (rule imageI)
      then show "core p \<in> set (map core (filter (inCategory c) ps))"
        by (simp only: set_map)
    qed
    have sum: "bucketsHolding ?r (core p)
        = (if categoryRule (decodedName p) = StandardJsf then 1 else 0)
          + (if categoryRule (decodedName p) = ComponentId then 1 else 0)
          + (if core p \<in> set (viewStateSlot ?r) then 1 else 0)
          + (if categoryRule (decodedName p) = FormSubmit then 1 else 0)
          + (if categoryRule (decodedName p) = Custom then 1 else 0)"
      unfolding bucketsHolding_def b1 b2 b3 b4 mem ..
    show ?thesis
    proof (cases "categoryRule (decodedName p) = ViewState")
      case True
      then have "filter (inCategory ViewState) ps \<noteq> []"
        using p by (auto simp: filter_empty_conv inCategory_def)
      with True show ?thesis
        unfolding sum b5 by (simp add: inCategory_def)
    next
      case False
      have "core p \<notin> set (viewStateSlot ?r)"
      proof
        assume "core p \<in> set (viewStateSlot ?r)"
        then have ne: "filter (inCategory ViewState) ps \<noteq> []"
          and eq: "core p = core (last (filter (inCategory ViewState) ps))"
          unfolding b5 by (simp_all split: if_splits)
        from ne have "last (filter (inCategory ViewState) ps) \<in> set (filter (inCategory ViewState) ps)"
          by (rule last_in_set)
        then have "inCategory ViewState (last (filter (inCategory ViewState) ps))"
          by simp
        with eq have "inCategory ViewState p"
          by (simp add: core_def inCategory_def)
        with False show False by (simp add: inCategory_def)
      qed
      with False show ?thesis
        unfolding sum by (cases "categoryRule (decodedName p)") (simp_all add: inCategory_def)
    qed
  qed
  from b1 b2 b3 b4 b5 count show ?thesis by blast
qed


text \<open>
  C5, as the specification words it, fails: of two view-state-named parameters the
  second replaces the first in the slot, and the first is then found in no bucket.
\<close>

theorem C5_counterexample:
  "length (parseUrlEncodedBody (str ''javax.faces.ViewState=a&javax.faces.ViewState=b'')) = 2 \<and>
   bucketsHolding
     (categorizeParameters (parseUrlEncodedBody (str ''javax.faces.ViewState=a&javax.faces.ViewState=b'')))
     (core (parseUrlEncodedBody (str ''javax.faces.ViewState=a&javax.faces.ViewState=b'') ! 0)) = 0"
  by code_simp

theorem C5_buckets_partition_input_witness:
  "parseUrlEncodedBody (str ''form_SUBMIT=1&key=value'') ! 1
     \<in> set (parseUrlEncodedBody (str ''form_SUBMIT=1&key=value'')) \<and>
   bucketsHolding
     (categorizeParameters (parseUrlEncodedBody (str ''form_SUBMIT=1&key=value'')))
     (core (parseUrlEncodedBody (str ''form_SUBMIT=1&key=value'') ! 1)) = 1"
proof -
  let ?ps = "parseUrlEncodedBody (str ''form_SUBMIT=1&key=value'')"
  have m: "?ps ! 1 \<in> set ?ps"
    by code_simp
  have nv: "\<not> inCategory ViewState (?ps ! 1)"
    by code_simp
  from C5_buckets_partition_input [of ?ps]
  have "\<forall>p \<in> set ?ps. bucketsHolding (categorizeParameters ?ps) (core p)
        = (if inCategory ViewState p \<and> core p \<noteq> core (last (filter (inCategory ViewState) ?ps))
           then 0 else 1)"
    by blast
  with m have "bucketsHolding (categorizeParameters ?ps) (core (?ps ! 1))
        = (if inCategory ViewState (?ps ! 1) \<and> core (?ps ! 1) \<noteq> core (last (filter (inCategory ViewState) ?ps))
           then 0 else 1)"
    by blast
  with nv have "bucketsHolding (categorizeParameters ?ps) (core (?ps ! 1)) = 1"
    by (simp only: simp_thms if_False)
  with m show ?thesis by blast
qed

text \<open>
  C3. For the body \<open>javax.faces.ViewState=abc123\<close> the detector answers detected with
  confidence \<open>High\<close>, and the categorizer puts the parameter into the view-state slot
  with no warning; but the encoding it stores is \<open>UnknownEncoding\<close>, the answer of the
  analyser that categorizer.ts declares for itself, where the \<open>analyzeViewState\<close> of
  viewstate.ts answers \<open>Encrypted\<close> for the same value.
\<close>

theorem C3_categorizer_stores_unknown_encoding:
  "detectJsf (JsString (str ''javax.faces.ViewState=abc123''))
     = \<lparr> isJsf = True, confidence = High,
         indicators = [str ''Standard JSF parameter: javax.faces.ViewState'',
                       str ''Version features: JSF 1.0+ (Core framework)'',
                       str ''Request type: Full Page Postback''] \<rparr> \<and>
   categorizeParameters (parameters (parseJsfBody (str ''javax.faces.ViewState=abc123'')))
     = \<lparr> standardJsf = [], componentIds = [],
         viewState = Some \<lparr> name = str ''javax.faces.ViewState'',
           decodedName = str ''javax.faces.ViewState'',
           value = str ''abc123'', decodedValue = str ''abc123'', category = Some ViewState,
           ViewStateParameter.encoding = UnknownEncoding,
           ViewStateParameter.decodedContent = None,
           ViewStateParameter.warnings = [] \<rparr>,
         formSubmit = [], custom = [] \<rparr> \<and>
   analyzeViewState (JsString (str ''abc123''))
     = \<lparr> encoding = Encrypted, decodedContent = None, isSerializedJava = False,
         warnings = [str ''ViewState is not Base64 encoded - likely encrypted or using custom encoding''] \<rparr>"
proof -
  have d: "detectJsf (JsString (str ''javax.faces.ViewState=abc123''))
     = \<lparr> isJsf = True, confidence = High,
         indicators = [str ''Standard JSF parameter: javax.faces.ViewState'',
                       str ''Version features: JSF 1.0+ (Core framework)'',
                       str ''Request type: Full Page Postback''] \<rparr>"
    by code_simp
  have c: "categorizeParameters (parameters (parseJsfBody (str ''javax.faces.ViewState=abc123'')))
     = \<lparr> standardJsf = [], componentIds = [],
         viewState = Some \<lparr> name = str ''javax.faces.ViewState'',
           decodedName = str ''javax.faces.ViewState'',
           value = str ''abc123'', decodedValue = str ''abc123'', category = Some ViewState,
           ViewStateParameter.encoding = UnknownEncoding,
           ViewStateParameter.decodedContent = None,
           ViewStateParameter.warnings = [] \<rparr>,
         formSubmit = [], custom = [] \<rparr>"
    by code_simp
  have a: "analyzeViewState (JsString (str ''abc123''))
     = \<lparr> encoding = Encrypted, decodedContent = None, isSerializedJava = False,
         warnings = [str ''ViewState is not Base64 encoded - likely encrypted or using custom encoding''] \<rparr>"
    by code_simp
  from d c a show ?thesis by (simp only: simp_thms)
qed

section \<open>View-state analysis: empty values and large values\<close>

text \<open>
  C10. For a value that is not a string and for the empty string, \<open>analyzeViewState\<close>
  returns the encoding \<open>UnknownEncoding\<close>, no decoded content and the single warning that
  the value is empty or invalid; the encoding is \<open>Encrypted\<close> exactly for the non-empty
  strings that \<open>isBase64\<close> rejects.
\<close>

theorem C10_empty_view_state:
  "analyzeViewState JsNonString
     = \<lparr> encoding = UnknownEncoding, decodedContent = None, isSerializedJava = False,
         warnings = [str ''ViewState value is empty or invalid''] \<rparr> \<and>
   analyzeViewState (JsString [])
     = \<lparr> encoding = UnknownEncoding, decodedContent = None, isSerializedJava = False,
         warnings = [str ''ViewState value is empty or invalid''] \<rparr> \<and>
   (encoding (analyzeViewState v) = Encrypted \<longleftrightarrow> (\<exists>s. v = JsString s \<and> s \<noteq> [] \<and> \<not> isBase64 s))"
proof -
  have e: "encoding (analyzeViewState v) = Encrypted \<longleftrightarrow> (\<exists>s. v = JsString s \<and> s \<noteq> [] \<and> \<not> isBase64 s)"
  proof (cases v)
    case JsNonString
    then show ?thesis by simp
  next
    case (JsString s)
    then show ?thesis
      by (simp add: Let_def split: option.splits)
  qed
  then show ?thesis by simp
qed

theorem C10_empty_view_state_witness:
  "\<not> isBase64 (str ''abc123'') \<and>
   encoding (analyzeViewState (JsString (str ''abc123''))) = Encrypted"
proof -
  have nb: "\<not> isBase64 (str ''abc123'')"
    by code_simp
  have ne: "str ''abc123'' \<noteq> []"
    by simp
  from C10_empty_view_state [of "JsString (str ''abc123'')"] nb ne show ?thesis
    by blast
qed

lemma replicate_four: "replicate (4 + k) x = x # x # x # x # replicate k x"
  by (simp add: numeral_eq_Suc)

lemma isBase64_run: "0 < n \<Longrightarrow> n mod 4 = 0 \<Longrightarrow> isBase64 (replicate n 65)"
  by (simp add: isBase64_iff base64Regex_def isBase64Char_def)

lemma atob_run: "n mod 4 = 0 \<Longrightarrow> atob (replicate n 65) = Some (decodeSextets (replicate n 0))"
  using atob_body [of "replicate n 65" "[]"]
  by (simp add: list_all_iff isBase64Char_def sextet_def)

lemma analyzeViewState_run:
  assumes "k mod 4 = 0"
  shows "analyzeViewState (JsString (replicate (4 + k) 65))
     = \<lparr> encoding = Base64, decodedContent = Some (decodeSextets (replicate (4 + k) 0)),
         isSerializedJava = False, warnings = [] \<rparr>"
proof -
  from assms have m: "(4 + k) mod 4 = 0" by presburger
  have b: "isBase64 (replicate (4 + k) 65)"
    using m by (intro isBase64_run) simp_all
  have a: "atob (replicate (4 + k) 65) = Some (decodeSextets (replicate (4 + k) 0))"
    using m by (rule atob_run)
  have j: "\<not> detectSerializedJava (map (\<lambda>c. c mod 256) (decodeSextets (replicate (4 + k) 0)))"
    unfolding replicate_four by (simp add: detectSerializedJava_def JAVA_SERIALIZATION_MAGIC_def)
  have ne: "replicate (4 + k) (65::nat) \<noteq> []" by simp
  show ?thesis
    unfolding analyzeViewState.simps a using ne b j by (simp add: Let_def)
qed

text \<open>
  C2, as the specification words it, fails: for a view-state value of 15000 letters
  \<open>A\<close>, which is base64, the \<open>analyzeViewState\<close> of viewstate.ts returns the encoding
  \<open>Base64\<close> and no warning at all, and the analyser that the categorizer calls returns
  no warning either.
\<close>

theorem C2_counterexample:
  "10000 < length (replicate 15000 (of_char CHR ''A'' :: nat)) \<and>
   encoding (analyzeViewState (JsString (replicate 15000 (of_char CHR ''A'')))) = Base64 \<and>
   warnings (analyzeViewState (JsString (replicate 15000 (of_char CHR ''A'')))) = [] \<and>
   warnings (Categorizer_analyzeViewState (replicate 15000 (of_char CHR ''A''))) = []"
proof -
  have "(15000::nat) = 4 + 14996" by simp
  moreover have "(14996::nat) mod 4 = 0" by simp
  ultimately have "analyzeViewState (JsString (replicate 15000 65))
     = \<lparr> encoding = Base64, decodedContent = Some (decodeSextets (replicate 15000 0)),
         isSerializedJava = False, warnings = [] \<rparr>"
    using analyzeViewState_run [of 14996] by simp
  then show ?thesis
    by (simp add: Categorizer_analyzeViewState_def)
qed

text \<open>
  C2, amended. For every view-state value of more than 10000 code units, the view-state
  explanation of valueAnalyzer.ts carries the large-size performance warning, whether the
  value is base64 or not. The \<open>analyzeViewState\<close> of viewstate.ts measures no size: it
  answers \<open>Base64\<close> when \<open>isBase64\<close> accepts the value and \<open>Encrypted\<close> otherwise, and
  its warnings are among the serialized-object warning and the not-base64 warning.
\<close>

theorem C2_size_warning_in_value_explainer:
  assumes "10000 < length s"
  shows "warning (valueAnalyzer_analyzeViewState s)
           = Some (str ''Large ViewState detected - may impact performance and bandwidth'') \<and>
         encoding (analyzeViewState (JsString s)) = (if isBase64 s then Base64 else Encrypted) \<and>
         set (warnings (analyzeViewState (JsString s)))
           \<subseteq> {str ''ViewState contains serialized Java object - potential deserialization vulnerability'',
               str ''ViewState is not Base64 encoded - likely encrypted or using custom encoding''}"
proof -
  from assms have ne: "s \<noteq> []" by auto
  have w: "warning (valueAnalyzer_analyzeViewState s)
           = Some (str ''Large ViewState detected - may impact performance and bandwidth'')"
    using assms by (simp add: valueAnalyzer_analyzeViewState_def Let_def)
  show ?thesis
  proof (cases "isBase64 s")
    case True
    then obtain decoded where "atob s = Some decoded"
      by (auto simp: isBase64_def split: if_splits option.splits)
    with True ne w show ?thesis by (simp add: Let_def)
  next
    case False
    with ne w show ?thesis by simp
  qed
qed

theorem C2_size_warning_in_value_explainer_witness:
  "10000 < length (replicate 15000 (of_char CHR ''A'' :: nat)) \<and>
   warning (valueAnalyzer_analyzeViewState (replicate 15000 (of_char CHR ''A'')))
     = Some (str ''Large ViewState detected - may impact performance and bandwidth'') \<and>
   encoding (analyzeViewState (JsString (replicate 15000 (of_char CHR ''A'')))) = Base64"
proof -
  have l: "10000 < length (replicate 15000 (of_char CHR ''A'' :: nat))" by simp
  have b: "isBase64 (replicate 15000 (of_char CHR ''A''))"
    using isBase64_run [of 15000] by simp
  from C2_size_warning_in_value_explainer [OF l] b l show ?thesis by simp
qed

end
